theory Spec2Isabelle
  imports Complex_Main
begin

section \<open>Python strings\<close>

text \<open>
  The ingestion helper \<^verbatim>\<open>helper/gen_sql_chunk.py\<close> cleans column names with the string
  methods \<^verbatim>\<open>replace\<close>, \<^verbatim>\<open>split\<close> and \<^verbatim>\<open>join\<close>, and builds names with f-strings
  of integers. A Python \<^verbatim>\<open>str\<close> is a \<^typ>\<open>string\<close> here; every character the code
  tests for is ASCII, so the byte-wise reading agrees with Python's code points.
\<close>

text \<open>
  \<^verbatim>\<open>s.replace(old, new)\<close>: every occurrence of \<open>old\<close>, scanning from the left without
  overlap. With an empty \<open>old\<close> Python puts \<open>new\<close> before every character and at the end.
\<close>

function py_replace :: "string \<Rightarrow> string \<Rightarrow> string \<Rightarrow> string" where
  "py_replace old new [] = (if old = [] then new else [])"
| "py_replace old new (c # cs) =
     (if old = [] then new @ c # py_replace old new cs
      else if take (length old) (c # cs) = old
        then new @ py_replace old new (drop (length old) (c # cs))
      else c # py_replace old new cs)"
  by pat_completeness auto
termination
  by (relation "measure (\<lambda>(old, new, s). length s)") auto

text \<open>
  \<^verbatim>\<open>s.split(sep)\<close> for a separator of one character, the only way the code calls it:
  the fragments between separators, empty ones included, so \<^verbatim>\<open>"".split("_") == [""]\<close>.
\<close>

fun py_split :: "char \<Rightarrow> string \<Rightarrow> string list" where
  "py_split sep [] = [[]]"
| "py_split sep (c # cs) =
     (if c = sep then [] # py_split sep cs
      else (case py_split sep cs of
              [] \<Rightarrow> [[c]]
            | part # parts \<Rightarrow> (c # part) # parts))"

text \<open>\<^verbatim>\<open>sep.join(parts)\<close>.\<close>

fun py_join :: "string \<Rightarrow> string list \<Rightarrow> string" where
  "py_join sep [] = []"
| "py_join sep [part] = part"
| "py_join sep (part # parts) = part @ sep @ py_join sep parts"

text \<open>\<^verbatim>\<open>str(n)\<close> of an integer: its decimal digits, with a minus sign when negative.\<close>

definition digit_char :: "nat \<Rightarrow> char" where
  "digit_char d = ''0123456789'' ! d"

fun str_nat :: "nat \<Rightarrow> string" where
  "str_nat n = (if n < 10 then [digit_char n] else str_nat (n div 10) @ [digit_char (n mod 10)])"

declare str_nat.simps [simp del]

definition str_int :: "int \<Rightarrow> string" where
  "str_int i = (if i < 0 then CHR ''-'' # str_nat (nat (- i)) else str_nat (nat i))"


section \<open>Column name sanitization\<close>

text \<open>
  Lines 314--370 of \<^verbatim>\<open>create_sqlite_from_uploaded_file\<close>. A column label of a frame is a
  string (a delimited-text header, a JSON key) or an integer (the positional labels the
  frame library gives to rows that are not objects); the code starts with \<^verbatim>\<open>str(col)\<close>.
\<close>

datatype label = LStr string | LInt int

fun str_label :: "label \<Rightarrow> string" where
  "str_label (LStr s) = s"
| "str_label (LInt i) = str_int i"

text \<open>
  Lines 315--343: the chain of twenty-six \<^verbatim>\<open>.replace(c, '_')\<close> calls, in the order of the
  source (\<open>fold\<close> applies the first element of the list first). \<open>CHR 0x5C\<close> is the
  backslash.
\<close>

definition replace_specials :: "string \<Rightarrow> string" where
  "replace_specials col =
     fold (\<lambda>old. py_replace old ''_'')
       ['' '', ''-'', ''.'', ''('', '')'', ''/'', [CHR 0x5C], ''['', '']'', ''{'', ''}'',
        '':'', '';'', '','', ''?'', ''!'', ''@'', ''#'', ''$'', ''%'', ''^'', ''&'', ''*'',
        ''+'', ''='', ''|'']
       col"

text \<open>Lines 346--349: \<^verbatim>\<open>'_'.join([part for part in col.split('_') if part])\<close>.\<close>

definition drop_empty_parts :: "string \<Rightarrow> string" where
  "drop_empty_parts col =
     py_join ''_'' (filter (\<lambda>part. part \<noteq> []) (py_split CHR ''_'' col))"

text \<open>Line 352: an empty name becomes \<^verbatim>\<open>column_<i>\<close>, \<open>i\<close> its position from \<open>0\<close>.\<close>

definition name_empty_columns :: "string list \<Rightarrow> string list" where
  "name_empty_columns cols =
     map (\<lambda>(i, col). if col = [] then ''column_'' @ str_nat i else col) (enumerate 0 cols)"

definition clean_columns :: "label list \<Rightarrow> string list" where
  "clean_columns labels =
     name_empty_columns
       (map drop_empty_parts (map (\<lambda>col. replace_specials (str_label col)) labels))"

text \<open>
  Lines 359--363: the search for a free suffix. \<open>seen_columns\<close> is a Python set; the
  model keeps the list of the names added to it, and only asks for membership.
  The loop ends because the decimal numerals of different counters differ, so each
  round leaves one name of \<open>seen_columns\<close> behind.
\<close>

function unused_suffix :: "string \<Rightarrow> string list \<Rightarrow> nat \<Rightarrow> string" where
  "unused_suffix col seen_columns counter =
     (let new_col = col @ ''_'' @ str_nat counter
      in if new_col \<in> set seen_columns then unused_suffix col seen_columns (counter + 1)
         else new_col)"
  by pat_completeness auto
termination
proof (relation "measure (\<lambda>(col, seen_columns, counter).
         length (filter (\<lambda>s. \<exists>k\<ge>counter. s = col @ ''_'' @ str_nat k) seen_columns))")
  show "wf (measure (\<lambda>(col, seen_columns, counter).
         length (filter (\<lambda>s. \<exists>k\<ge>counter. s = col @ ''_'' @ str_nat k) seen_columns)))"
    by simp
next
  fix col :: string and seen_columns :: "string list" and counter :: nat and new_col :: string
  assume new_col: "new_col = col @ ''_'' @ str_nat counter"
    and seen: "new_col \<in> set seen_columns"
  have digit_inj: "a = b" if "a < 10" "b < 10" "digit_char a = digit_char b" for a b :: nat
  proof -
    have "a \<in> {0,1,2,3,4,5,6,7,8,9}" "b \<in> {0,1,2,3,4,5,6,7,8,9}"
      using that(1,2) by auto
    then show ?thesis
      using that(3) by (auto simp: digit_char_def)
  qed
  have nonempty: "str_nat n \<noteq> []" for n
    by (subst str_nat.simps) simp
  have inj: "m = n" if "str_nat m = str_nat n" for m n
    using that
  proof (induction m arbitrary: n rule: str_nat.induct)
    case (1 m)
    consider "m < 10" "n < 10" | "m < 10" "\<not> n < 10" | "\<not> m < 10" "n < 10"
      | "\<not> m < 10" "\<not> n < 10"
      by blast
    then show ?case
    proof cases
      case 1
      with "1.prems" show ?thesis
        by (simp add: str_nat.simps digit_inj)
    next
      case 2
      with "1.prems" nonempty[of "n div 10"] show ?thesis
        by (simp add: str_nat.simps[of m] str_nat.simps[of n])
    next
      case 3
      with "1.prems" nonempty[of "m div 10"] show ?thesis
        by (simp add: str_nat.simps[of m] str_nat.simps[of n])
    next
      case 4
      with "1.prems"
      have "str_nat (m div 10) @ [digit_char (m mod 10)]
          = str_nat (n div 10) @ [digit_char (n mod 10)]"
        by (simp add: str_nat.simps[of m] str_nat.simps[of n])
      then have hi: "str_nat (m div 10) = str_nat (n div 10)"
        and lo: "digit_char (m mod 10) = digit_char (n mod 10)"
        by simp_all
      from hi have "m div 10 = n div 10"
        using "1.IH" 4(1) by blast
      moreover from lo have "m mod 10 = n mod 10"
        by (simp add: digit_inj)
      ultimately show ?thesis
        by (metis div_mult_mod_eq)
    qed
  qed
  have le: "length (filter Q xs) \<le> length (filter P xs)"
    if "\<And>x. Q x \<Longrightarrow> P x" for P Q :: "string \<Rightarrow> bool" and xs
    using that by (induction xs) auto
  have less: "length (filter Q xs) < length (filter P xs)"
    if "\<And>x. Q x \<Longrightarrow> P x" "x \<in> set xs" "P x" "\<not> Q x"
    for P Q :: "string \<Rightarrow> bool" and xs x
    using that
  proof (induction xs)
    case Nil
    then show ?case by simp
  next
    case (Cons y ys)
    from le[of Q P ys] Cons.prems(1) have "length (filter Q ys) \<le> length (filter P ys)"
      by blast
    with Cons show ?case
      by (cases "x = y") (auto simp: less_Suc_eq_le)
  qed
  let ?P = "\<lambda>s. \<exists>k\<ge>counter. s = col @ ''_'' @ str_nat k"
  let ?Q = "\<lambda>s. \<exists>k\<ge>counter + 1. s = col @ ''_'' @ str_nat k"
  have sub: "?P s" if "?Q s" for s
  proof -
    from that obtain k where "k \<ge> counter + 1" "s = col @ ''_'' @ str_nat k"
      by blast
    then have "k \<ge> counter \<and> s = col @ ''_'' @ str_nat k"
      by simp
    then show ?thesis
      by blast
  qed
  have "?P new_col"
    using new_col by blast
  moreover have "\<not> ?Q new_col"
  proof
    assume "?Q new_col"
    then obtain k where "k \<ge> counter + 1" "str_nat counter = str_nat k"
      using new_col by auto
    then show False
      using inj by fastforce
  qed
  ultimately have "length (filter ?Q seen_columns) < length (filter ?P seen_columns)"
    using less[of ?Q ?P new_col seen_columns] sub seen by blast
  then show "((col, seen_columns, counter + 1), (col, seen_columns, counter))
      \<in> measure (\<lambda>(col, seen_columns, counter).
          length (filter (\<lambda>s. \<exists>k\<ge>counter. s = col @ ''_'' @ str_nat k) seen_columns))"
    by simp
qed

declare unused_suffix.simps [simp del]

text \<open>
  Lines 355--370: the loop over the cleaned names. A name already in \<open>seen_columns\<close>
  gets the first free suffix, counting from \<open>1\<close>; the name that is kept is added to
  \<open>seen_columns\<close> and to \<open>new_columns\<close>.
\<close>

fun dedup_loop :: "string list \<Rightarrow> string list \<Rightarrow> string list \<Rightarrow> string list" where
  "dedup_loop seen_columns new_columns [] = new_columns"
| "dedup_loop seen_columns new_columns (col # cols) =
     (if col \<in> set seen_columns
      then (let new_col = unused_suffix col seen_columns 1
            in dedup_loop (new_col # seen_columns) (new_columns @ [new_col]) cols)
      else dedup_loop (col # seen_columns) (new_columns @ [col]) cols)"

definition remove_duplicate_columns :: "string list \<Rightarrow> string list" where
  "remove_duplicate_columns cols = dedup_loop [] [] cols"

text \<open>The whole of lines 314--370, from the labels of the frame to its new column names.\<close>

definition sanitize_columns :: "label list \<Rightarrow> string list" where
  "sanitize_columns labels = remove_duplicate_columns (clean_columns labels)"



section \<open>Python values, frames and the libraries\<close>

text \<open>
  The values a parsed JSON document or a frame cell holds. A JSON object is a Python
  \<^verbatim>\<open>dict\<close>: its items in insertion order, with distinct keys. A float is its
  mathematical value or NaN (the missing-value marker of a numeric column); the
  infinities behave like a finite float in everything modelled here.
\<close>

datatype float64 = Finite real | NaN

datatype pyval =
    PyNone
  | PyBool bool
  | PyInt int
  | PyFloat float64
  | PyStr string
  | PyList "pyval list"
  | PyDict "(string \<times> pyval) list"

text \<open>
  A frame: its column labels, the storage type (dtype) of each column, and its rows in
  order. \<^verbatim>\<open>len(df)\<close> is the number of rows; \<^verbatim>\<open>df.empty\<close> holds when either axis
  has length zero.
\<close>

datatype dtype = Int64 | UInt64 | Float64 | Bool | Datetime64 | Object

record dataframe =
  columns :: "label list"
  dtypes :: "dtype list"
  rows :: "pyval list list"

definition df_empty :: "dataframe \<Rightarrow> bool" where
  "df_empty df \<longleftrightarrow> rows df = [] \<or> columns df = []"

text \<open>
  The uploaded file object: its name, its bytes, the position of the read pointer and
  the size it reports. \<^verbatim>\<open>seek\<close> moves the pointer, \<^verbatim>\<open>read\<close> returns the bytes from
  the pointer on and leaves the pointer at the end. The functions below rewind before
  they read; where the pointer stands when they return is not part of their result
  here.
\<close>

record uploaded_file =
  file_name :: string
  file_bytes :: string
  file_pos :: nat
  file_size :: nat

definition seek :: "uploaded_file \<Rightarrow> nat \<Rightarrow> uploaded_file" where
  "seek f pos = f\<lparr>file_pos := pos\<rparr>"

definition read :: "uploaded_file \<Rightarrow> string \<times> uploaded_file" where
  "read f = (drop (file_pos f) (file_bytes f),
             f\<lparr>file_pos := max (file_pos f) (length (file_bytes f))\<rparr>)"

definition endswith :: "string \<Rightarrow> string \<Rightarrow> bool" where
  "endswith s suffix \<longleftrightarrow>
     length suffix \<le> length s \<and> drop (length s - length suffix) s = suffix"

text \<open>
  A SQLite file holds tables by name; the file system holds database files by path.
\<close>

type_synonym database = "string \<rightharpoonup> dataframe"

type_synonym filesystem = "string \<rightharpoonup> database"

text \<open>
  The code raises \<^verbatim>\<open>ValueError\<close> with three messages of its own; everything else that
  can go wrong is an exception of a library call, kept apart here with its message,
  or one of the two run-time errors of Python named below.
\<close>

datatype error =
    ValueError string
  | LibraryError string
  | UnboundLocalError string
  | AttributeError string

fun str_error :: "error \<Rightarrow> string" where
  "str_error (ValueError msg) = msg"
| "str_error (LibraryError msg) = msg"
| "str_error (UnboundLocalError msg) = msg"
| "str_error (AttributeError msg) = msg"

text \<open>
  What the code calls and this repository does not contain: the temporary-file name,
  UTF-8 decoding, the two parsers, the frame constructor, the sampler
  \<^verbatim>\<open>df.sample(n=n, random_state=seed)\<close> (on the rows; labels and dtypes stay) and
  \<^verbatim>\<open>df.to_sql(table_name, engine, if_exists='replace', index=False)\<close>. Each is a
  parameter; \<open>Inl msg\<close> is an exception with that message.
\<close>

record library =
  mktemp :: "filesystem \<Rightarrow> string"
  decode_utf8 :: "string \<Rightarrow> string + string"
  read_csv :: "string \<Rightarrow> string + dataframe"
  json_loads :: "string \<Rightarrow> string + pyval"
  DataFrame :: "pyval list \<Rightarrow> string + dataframe"
  sample :: "pyval list list \<Rightarrow> nat \<Rightarrow> nat \<Rightarrow> pyval list list"
  to_sql :: "dataframe \<Rightarrow> string \<Rightarrow> database \<Rightarrow> string + database"

definition lib_call :: "string + 'a \<Rightarrow> error + 'a" where
  "lib_call r = (case r of Inl msg \<Rightarrow> Inl (LibraryError msg) | Inr v \<Rightarrow> Inr v)"

definition and_then :: "error + 'a \<Rightarrow> ('a \<Rightarrow> error + 'b) \<Rightarrow> error + 'b" where
  "and_then r f = (case r of Inl e \<Rightarrow> Inl e | Inr v \<Rightarrow> f v)"


section \<open>Ingestion of an uploaded file\<close>

text \<open>
  Lines 285--298: from the parsed JSON to a frame. A list goes to the frame
  constructor as it is; a dict with one key gives its value, as it is when a list and
  as a list of one element otherwise; any other dict is a list of one element; anything
  else raises.
\<close>

definition json_to_frame :: "library \<Rightarrow> pyval \<Rightarrow> error + dataframe" where
  "json_to_frame lib json_data =
     (case json_data of
        PyList items \<Rightarrow> lib_call (DataFrame lib items)
      | PyDict items \<Rightarrow>
          (case items of
             [(key, v)] \<Rightarrow>
               (case v of
                  PyList vs \<Rightarrow> lib_call (DataFrame lib vs)
                | _ \<Rightarrow> lib_call (DataFrame lib [v]))
           | _ \<Rightarrow> lib_call (DataFrame lib [PyDict items]))
      | _ \<Rightarrow> Inl (ValueError ''Unsupported JSON structure''))"

text \<open>
  Lines 258--301: rewind, choose the parser by the end of the file name, read and
  decode, parse.
\<close>

definition read_text :: "library \<Rightarrow> uploaded_file \<Rightarrow> error + string" where
  "read_text lib uploaded_file = lib_call (decode_utf8 lib (fst (read uploaded_file)))"

definition load_frame :: "library \<Rightarrow> uploaded_file \<Rightarrow> error + dataframe" where
  "load_frame lib uploaded_file =
     (let uploaded_file = seek uploaded_file 0
      in if endswith (file_name uploaded_file) ''.csv'' then
           and_then (read_text lib uploaded_file) (\<lambda>content. lib_call (read_csv lib content))
         else if endswith (file_name uploaded_file) ''.json'' then
           and_then (read_text lib uploaded_file) (\<lambda>content.
           and_then (lib_call (json_loads lib content)) (\<lambda>json_data.
             json_to_frame lib json_data))
         else Inl (ValueError (''Unsupported file type: '' @ file_name uploaded_file)))"

text \<open>
  Lines 310--312: \<^verbatim>\<open>if sample_size and len(df) > sample_size\<close>; \<open>None\<close> and \<open>0\<close> are
  both false in Python. The seed is the literal \<open>42\<close>.
\<close>

definition sample_frame :: "library \<Rightarrow> nat option \<Rightarrow> dataframe \<Rightarrow> dataframe" where
  "sample_frame lib sample_size df =
     (case sample_size of
        None \<Rightarrow> df
      | Some n \<Rightarrow>
          if n \<noteq> 0 \<and> length (rows df) > n then df\<lparr>rows := sample lib (rows df) n 42\<rparr>
          else df)"

text \<open>
  Lines 258--370, the body of the \<^verbatim>\<open>try\<close> up to the frame that is written: load,
  refuse an empty frame, sample, rename the columns.
\<close>

definition prepare_frame :: "library \<Rightarrow> uploaded_file \<Rightarrow> nat option \<Rightarrow> error + dataframe" where
  "prepare_frame lib uploaded_file sample_size =
     and_then (load_frame lib uploaded_file) (\<lambda>df.
       if df_empty df then Inl (ValueError ''The uploaded file contains no data'')
       else (let df = sample_frame lib sample_size df
             in Inr (df\<lparr>columns := map LStr (sanitize_columns (columns df))\<rparr>)))"

text \<open>
  The whole function, lines 238--387: a fresh, empty database file is created first;
  the frame is written into it as \<open>table_name\<close>; on any exception the file is removed
  and the exception is raised again. The result is the path or the error, and the file
  system afterwards. Printing is left out.
\<close>

definition create_sqlite_from_uploaded_file ::
  "library \<Rightarrow> filesystem \<Rightarrow> uploaded_file \<Rightarrow> string \<Rightarrow> nat option
     \<Rightarrow> (error + string) \<times> filesystem" where
  "create_sqlite_from_uploaded_file lib fs uploaded_file table_name sample_size =
     (let temp_db_pth = mktemp lib fs;
          fs = fs(temp_db_pth \<mapsto> Map.empty)
      in case and_then (prepare_frame lib uploaded_file sample_size)
                (\<lambda>df. lib_call (to_sql lib df table_name Map.empty)) of
           Inl e \<Rightarrow> (Inl e, fs(temp_db_pth := None))
         | Inr db \<Rightarrow> (Inr temp_db_pth, fs(temp_db_pth \<mapsto> db)))"


section \<open>File information\<close>

text \<open>
  Lines 390--460. The result is a dict with the statistics, a dict with
  \<^verbatim>\<open>'type': 'Unknown'\<close> and the message of the exception caught, or Python's \<open>None\<close>
  when the function falls off its end. In the JSON branch a parsed value that is neither
  a list nor a dict leaves \<^verbatim>\<open>df\<close> unbound, and \<^verbatim>\<open>len(df)\<close> raises (the message is
  that of Python 3.11 and later).
\<close>

datatype file_info =
    FileInfo string nat nat "label list" real
  | UnknownInfo string real

definition size_mb :: "uploaded_file \<Rightarrow> real" where
  "size_mb uploaded_file = real (file_size uploaded_file) / (1024 * 1024)"

definition info_frame :: "library \<Rightarrow> pyval \<Rightarrow> error + dataframe" where
  "info_frame lib json_data =
     (case json_data of
        PyList items \<Rightarrow> lib_call (DataFrame lib items)
      | PyDict items \<Rightarrow>
          (case items of
             [(key, v)] \<Rightarrow>
               (case v of
                  PyList vs \<Rightarrow> lib_call (DataFrame lib vs)
                | _ \<Rightarrow> lib_call (DataFrame lib [v]))
           | _ \<Rightarrow> lib_call (DataFrame lib [PyDict items]))
      | _ \<Rightarrow>
          Inl (UnboundLocalError
            (''cannot access local variable '' @ [CHR 0x27] @ ''df'' @ [CHR 0x27]
             @ '' where it is not associated with a value'')))"

definition file_info_of :: "string \<Rightarrow> uploaded_file \<Rightarrow> error + dataframe \<Rightarrow> file_info" where
  "file_info_of type uploaded_file r =
     (case r of
        Inl e \<Rightarrow> UnknownInfo (str_error e) (size_mb uploaded_file)
      | Inr df \<Rightarrow>
          FileInfo type (length (rows df)) (length (columns df)) (columns df)
            (size_mb uploaded_file))"

definition get_file_info :: "library \<Rightarrow> uploaded_file \<Rightarrow> file_info option" where
  "get_file_info lib uploaded_file =
     (let uploaded_file = seek uploaded_file 0
      in if endswith (file_name uploaded_file) ''.csv'' then
           Some (file_info_of ''CSV'' uploaded_file
             (and_then (read_text lib uploaded_file) (\<lambda>content.
                lib_call (read_csv lib content))))
         else if endswith (file_name uploaded_file) ''.json'' then
           Some (file_info_of ''JSON'' uploaded_file
             (and_then (read_text lib uploaded_file) (\<lambda>content.
              and_then (lib_call (json_loads lib content)) (\<lambda>json_data.
                info_frame lib json_data))))
         else None)"



section \<open>CREATE TABLE text\<close>







fun collect :: "(error + 'a) list \<Rightarrow> error + 'a list" where
  "collect [] = Inr []"
| "collect (r # rs) = and_then r (\<lambda>v. and_then (collect rs) (\<lambda>vs. Inr (v # vs)))"


text \<open>
  The dtype itself is chosen by the frame library, not by this repository, when it
  builds a column from Python values. Modelled from the library's documented rules for
  a column of \<open>None\<close>, booleans, integers, floats and strings: booleans alone are
  \<open>Bool\<close>; integers alone are \<open>Int64\<close> (\<open>UInt64\<close> when one needs the 64th bit and none
  is negative); numbers with a float or a \<open>None\<close> among them are \<open>Float64\<close>, the
  \<open>None\<close> stored as NaN; everything else, also a column of \<open>None\<close> alone, is \<open>Object\<close>.
\<close>

fun is_py_bool :: "pyval \<Rightarrow> bool" where
  "is_py_bool (PyBool b) = True"
| "is_py_bool v = False"

fun is_py_int :: "pyval \<Rightarrow> bool" where
  "is_py_int (PyInt i) = True"
| "is_py_int v = False"

fun is_py_float :: "pyval \<Rightarrow> bool" where
  "is_py_float (PyFloat x) = True"
| "is_py_float v = False"

fun fits :: "int \<Rightarrow> int \<Rightarrow> pyval \<Rightarrow> bool" where
  "fits lo hi (PyInt i) = (lo \<le> i \<and> i < hi)"
| "fits lo hi v = True"

definition infer_dtype :: "pyval list \<Rightarrow> dtype" where
  "infer_dtype values =
     (if values \<noteq> [] \<and> list_all is_py_bool values then Bool
      else if list_all (\<lambda>v. is_py_int v \<or> is_py_float v \<or> v = PyNone) values
            \<and> list_ex (\<lambda>v. is_py_int v \<or> is_py_float v) values
            \<and> list_all (fits (- (2 ^ 63)) (2 ^ 64)) values
        then (if list_ex (\<lambda>v. is_py_float v \<or> v = PyNone) values then Float64
              else if list_all (fits (- (2 ^ 63)) (2 ^ 63)) values then Int64
              else if list_all (fits 0 (2 ^ 64)) values then UInt64
              else Object)
      else Object)"



section \<open>INSERT values\<close>

text \<open>
  Lines 156--175 of \<^verbatim>\<open>generate_insert_sql\<close>: the text of one value, by the first test
  that holds. \<^verbatim>\<open>isinstance\<close> follows Python's classes: \<^verbatim>\<open>bool\<close> is a subclass of
  \<^verbatim>\<open>int\<close>. \<^verbatim>\<open>pd.isna\<close> of \<open>None\<close> and NaN is true and of every other scalar and
  of a dict false; on a list it answers element by element, and the truth value the
  \<^verbatim>\<open>if\<close> then asks for (or the exception) is the parameter \<open>isna_list\<close>. \<^verbatim>\<open>str\<close> of
  a float, a list or a dict is the parameter \<open>repr\<close>.
\<close>

fun pd_isna :: "(pyval list \<Rightarrow> string + bool) \<Rightarrow> pyval \<Rightarrow> string + bool" where
  "pd_isna isna_list PyNone = Inr True"
| "pd_isna isna_list (PyFloat NaN) = Inr True"
| "pd_isna isna_list (PyList vs) = isna_list vs"
| "pd_isna isna_list v = Inr False"

fun isinstance_str :: "pyval \<Rightarrow> bool" where
  "isinstance_str (PyStr s) = True"
| "isinstance_str v = False"

fun isinstance_int_float :: "pyval \<Rightarrow> bool" where
  "isinstance_int_float (PyBool b) = True"
| "isinstance_int_float (PyInt i) = True"
| "isinstance_int_float (PyFloat x) = True"
| "isinstance_int_float v = False"

fun isinstance_bool :: "pyval \<Rightarrow> bool" where
  "isinstance_bool (PyBool b) = True"
| "isinstance_bool v = False"

fun py_str :: "(pyval \<Rightarrow> string) \<Rightarrow> pyval \<Rightarrow> string" where
  "py_str repr PyNone = ''None''"
| "py_str repr (PyBool b) = (if b then ''True'' else ''False'')"
| "py_str repr (PyInt i) = str_int i"
| "py_str repr (PyStr s) = s"
| "py_str repr v = repr v"

fun truthy :: "pyval \<Rightarrow> bool" where
  "truthy (PyBool b) = b"
| "truthy v = True"

datatype insert_branch = NullBranch | StrBranch | NumberBranch | BoolBranch | OtherBranch

definition value_branch ::
  "(pyval list \<Rightarrow> string + bool) \<Rightarrow> pyval \<Rightarrow> error + insert_branch" where
  "value_branch isna_list value =
     and_then (lib_call (pd_isna isna_list value)) (\<lambda>na. Inr
       (if na then NullBranch
        else if isinstance_str value then StrBranch
        else if isinstance_int_float value then NumberBranch
        else if isinstance_bool value then BoolBranch
        else OtherBranch))"

definition quoted :: "string \<Rightarrow> string" where
  "quoted s = [CHR 0x27] @ py_replace [CHR 0x27] [CHR 0x27, CHR 0x27] s @ [CHR 0x27]"

definition record_value ::
  "(pyval list \<Rightarrow> string + bool) \<Rightarrow> (pyval \<Rightarrow> string) \<Rightarrow> pyval \<Rightarrow> error + string" where
  "record_value isna_list repr value =
     and_then (value_branch isna_list value) (\<lambda>branch. Inr
       (case branch of
          NullBranch \<Rightarrow> ''NULL''
        | StrBranch \<Rightarrow> quoted (py_str repr value)
        | NumberBranch \<Rightarrow> py_str repr value
        | BoolBranch \<Rightarrow> (if truthy value then ''1'' else ''0'')
        | OtherBranch \<Rightarrow> quoted (py_str repr value)))"

definition insert_record ::
  "(pyval list \<Rightarrow> string + bool) \<Rightarrow> (pyval \<Rightarrow> string) \<Rightarrow> pyval list \<Rightarrow> error + string" where
  "insert_record isna_list repr row =
     and_then (collect (map (record_value isna_list repr) row)) (\<lambda>record_values.
       Inr (''('' @ py_join '', '' record_values @ '')''))"



section \<open>The specification's wording\<close>

text \<open>
  The sanitization of one column name as the specification states it: every character
  of the blocklist (space, hyphen, period, and \<^verbatim>\<open>()[]{}/\:;,?!@#$%^&*+=|\<close>) becomes an
  underscore; the name is split on underscores and its non-empty fragments are joined
  again with one underscore; an empty result becomes \<^verbatim>\<open>column_<index>\<close>.
\<close>

definition blocklist :: "char list" where
  "blocklist = '' -.()[]{}/'' @ [CHR 0x5C] @ '':;,?!@#$%^&*+=|''"

definition underscore_blocklisted :: "string \<Rightarrow> string" where
  "underscore_blocklisted s = map (\<lambda>c. if c \<in> set blocklist then CHR ''_'' else c) s"

definition spec_sanitize_name :: "nat \<Rightarrow> string \<Rightarrow> string" where
  "spec_sanitize_name i s =
     (let replaced = underscore_blocklisted s;
          rejoined = py_join ''_''
            (filter (\<lambda>fragment. fragment \<noteq> []) (py_split CHR ''_'' replaced))
      in if rejoined = [] then ''column_'' @ str_nat i else rejoined)"

text \<open>
  The specification's \<^verbatim>\<open>sample_size or original_row_count\<close>, with Python's \<^verbatim>\<open>or\<close>:
  an absent or zero sample size gives the row count.
\<close>

definition sample_size_or :: "nat option \<Rightarrow> nat \<Rightarrow> nat" where
  "sample_size_or sample_size row_count =
     (case sample_size of None \<Rightarrow> row_count | Some n \<Rightarrow> if n = 0 then row_count else n)"

text \<open>
  The JSON shapes the specification accepts: an array of objects, an object with one key
  whose value is an array of objects, and a bare object.
\<close>

fun is_object :: "pyval \<Rightarrow> bool" where
  "is_object (PyDict items) = True"
| "is_object v = False"

fun is_array :: "pyval \<Rightarrow> bool" where
  "is_array (PyList items) = True"
| "is_array v = False"

fun array_of_objects :: "pyval \<Rightarrow> bool" where
  "array_of_objects (PyList items) = list_all is_object items"
| "array_of_objects v = False"

fun single_key_array_of_objects :: "pyval \<Rightarrow> bool" where
  "single_key_array_of_objects (PyDict [(key, v)]) = array_of_objects v"
| "single_key_array_of_objects v = False"

definition supported_shape :: "pyval \<Rightarrow> bool" where
  "supported_shape json_data \<longleftrightarrow>
     array_of_objects json_data \<or> single_key_array_of_objects json_data \<or> is_object json_data"



section \<open>Notions used in the proofs\<close>

text \<open>
  The name the loop of lines 357--368 keeps for \<open>col\<close> when \<open>earlier\<close> are the names
  kept so far.
\<close>

definition kept_name :: "string list \<Rightarrow> string \<Rightarrow> string" where
  "kept_name earlier col = (if col \<in> set earlier then unused_suffix col earlier 1 else col)"

text \<open>
  A name the cleaning leaves alone: no character of the blocklist, and no empty
  fragment between underscores (so it is not empty, has no underscore at either end and
  no two in a row).
\<close>

definition clean_name :: "string \<Rightarrow> bool" where
  "clean_name s \<longleftrightarrow> set s \<inter> set blocklist = {} \<and> [] \<notin> set (py_split CHR ''_'' s)"


section \<open>An instance of the libraries\<close>

text \<open>
  A small stand-in for the libraries, to run the model on concrete files: a frame
  constructor for lists of objects (the keys in order of first appearance, a missing
  key as NaN) and for lists of scalars (one column labelled \<open>0\<close>), parsers that know
  the documents below, a sampler that takes \<open>n\<close> rows after rotating the rows by the
  seed, and a writer that stores the frame under the table name.
\<close>

fun keys_of :: "pyval \<Rightarrow> string list" where
  "keys_of (PyDict items) = map fst items"
| "keys_of v = []"

fun cell :: "string \<Rightarrow> pyval \<Rightarrow> pyval" where
  "cell key (PyDict items) = (case map_of items key of Some v \<Rightarrow> v | None \<Rightarrow> PyFloat NaN)"
| "cell key v = PyFloat NaN"

definition example_DataFrame :: "pyval list \<Rightarrow> string + dataframe" where
  "example_DataFrame items =
     (if list_all is_object items then
        (let keys = rev (remdups (rev (concat (map keys_of items))))
         in Inr \<lparr>columns = map LStr keys,
                 dtypes = map (\<lambda>key. infer_dtype (map (cell key) items)) keys,
                 rows = map (\<lambda>item. map (\<lambda>key. cell key item) keys) items\<rparr>)
      else if list_ex is_object items \<or> list_ex is_array items then
        Inl ''unsupported mix of values''
      else Inr \<lparr>columns = [LInt 0], dtypes = [infer_dtype items],
                rows = map (\<lambda>v. [v]) items\<rparr>)"

definition revenue_csv :: string where
  "revenue_csv = ''2023 Q1 (Revenue),Name'' @ [CHR 0x0A] @ ''10,A'' @ [CHR 0x0A]
     @ ''20,B'' @ [CHR 0x0A] @ ''30,C'' @ [CHR 0x0A]"

definition revenue_frame :: dataframe where
  "revenue_frame =
     \<lparr>columns = [LStr ''2023 Q1 (Revenue)'', LStr ''Name''],
      dtypes = [Int64, Object],
      rows = [[PyInt 10, PyStr ''A''], [PyInt 20, PyStr ''B''], [PyInt 30, PyStr ''C'']]\<rparr>"

definition employees_json :: string where
  \<open>employees_json =
     ''{"employees": [{"Full Name": "A", "Salary": 50000}, {"Full Name": "B", "Salary": 60000}]}''\<close>

definition employees_value :: pyval where
  "employees_value =
     PyDict [(''employees'',
       PyList [PyDict [(''Full Name'', PyStr ''A''), (''Salary'', PyInt 50000)],
               PyDict [(''Full Name'', PyStr ''B''), (''Salary'', PyInt 60000)]])]"

definition example_json_loads :: "string \<Rightarrow> string + pyval" where
  "example_json_loads s =
     (if s = employees_json then Inr employees_value
      else if s = ''[1]'' then Inr (PyList [PyInt 1])
      else if s = ''[]'' then Inr (PyList [])
      else if s = ''5'' then Inr (PyInt 5)
      else Inl ''Expecting value'')"

definition example_read_csv :: "string \<Rightarrow> string + dataframe" where
  "example_read_csv s =
     (if s = revenue_csv then Inr revenue_frame else Inl ''No columns to parse from file'')"

definition example_lib :: library where
  "example_lib =
     \<lparr>mktemp = (\<lambda>fs. ''/tmp/tmpk3v9.db''),
      decode_utf8 = Inr,
      read_csv = example_read_csv,
      json_loads = example_json_loads,
      DataFrame = example_DataFrame,
      sample = (\<lambda>rows n seed.
        take n (drop (seed mod length rows) rows @ take (seed mod length rows) rows)),
      to_sql = (\<lambda>df table_name db. Inr (db(table_name \<mapsto> df)))\<rparr>"

definition upload :: "string \<Rightarrow> string \<Rightarrow> uploaded_file" where
  "upload nm bytes =
     \<lparr>file_name = nm, file_bytes = bytes, file_pos = 0, file_size = length bytes\<rparr>"


section \<open>Lemmas on the string functions\<close>

lemma py_replace_char:
  "py_replace [a] [b] s = map (\<lambda>c. if c = a then b else c) s"
  by (induction s) simp_all

lemma fold_replace_chars:
  "CHR ''_'' \<notin> set olds \<Longrightarrow>
   fold (\<lambda>old. py_replace old ''_'') (map (\<lambda>a. [a]) olds)
     (map (\<lambda>c. if c \<in> A then CHR ''_'' else c) s) =
   map (\<lambda>c. if c \<in> A \<union> set olds then CHR ''_'' else c) s"
proof (induction olds arbitrary: A)
  case Nil
  show ?case by simp
next
  case (Cons a olds)
  have "py_replace [a] ''_'' (map (\<lambda>c. if c \<in> A then CHR ''_'' else c) s) =
        map (\<lambda>c. if c \<in> insert a A then CHR ''_'' else c) s"
    using Cons.prems by (simp add: py_replace_char)
  with Cons.IH[of "insert a A"] Cons.prems show ?case
    by simp
qed

lemma replace_specials_map: "replace_specials s = underscore_blocklisted s"
proof -
  let ?olds = "'' -.()/'' @ [CHR 0x5C] @ ''[]{}:;,?!@#$%^&*+=|''"
  have "replace_specials s =
        fold (\<lambda>old. py_replace old ''_'') (map (\<lambda>a. [a]) ?olds)
          (map (\<lambda>c. if c \<in> {} then CHR ''_'' else c) s)"
    by (simp add: replace_specials_def del: py_replace.simps)
  also have "\<dots> = map (\<lambda>c. if c \<in> {} \<union> set ?olds then CHR ''_'' else c) s"
    by (rule fold_replace_chars) simp
  also have "{} \<union> set ?olds = set blocklist"
    by (auto simp: blocklist_def)
  finally show ?thesis
    by (simp add: underscore_blocklisted_def)
qed


lemma clean_columns_spec:
  "clean_columns labels =
     map (\<lambda>(i, col). spec_sanitize_name i (str_label col)) (enumerate 0 labels)"
  by (simp add: clean_columns_def name_empty_columns_def enumerate_eq_zip zip_map2
      spec_sanitize_name_def drop_empty_parts_def replace_specials_map
      underscore_blocklisted_def split_def Let_def)


lemma py_split_nonempty: "py_split sep s \<noteq> []"
  by (induction s) (auto split: list.splits)

lemma py_split_no_sep: "p \<in> set (py_split sep s) \<Longrightarrow> sep \<notin> set p"
  by (induction s arbitrary: p) (auto split: list.splits if_splits)

lemma py_split_chars: "p \<in> set (py_split sep s) \<Longrightarrow> set p \<subseteq> set s"
proof (induction s arbitrary: p)
  case Nil
  then show ?case by simp
next
  case (Cons c s)
  obtain q qs where qs: "py_split sep s = q # qs"
    using py_split_nonempty[of sep s] by (cases "py_split sep s") auto
  have q: "set q \<subseteq> set s"
    using Cons.IH[of q] qs by simp
  have rest: "set r \<subseteq> set s" if "r \<in> set qs" for r
    using Cons.IH[of r] qs that by simp
  show ?case
  proof (cases "c = sep")
    case True
    with Cons.prems qs q rest show ?thesis
      by auto
  next
    case False
    with Cons.prems qs have "p = c # q \<or> p \<in> set qs"
      by simp
    with q rest show ?thesis
      by auto
  qed
qed

lemma py_join_split: "py_join [sep] (py_split sep s) = s"
proof (induction s)
  case Nil
  show ?case by simp
next
  case (Cons c s)
  obtain p ps where ps: "py_split sep s = p # ps"
    using py_split_nonempty[of sep s] by (cases "py_split sep s") auto
  with Cons show ?case
    by (cases ps) auto
qed

lemma py_split_without_sep: "sep \<notin> set s \<Longrightarrow> py_split sep s = [s]"
  by (induction s) auto

lemma py_split_append_sep:
  "py_split sep (a @ sep # b) = py_split sep a @ py_split sep b"
  by (induction a) (auto simp: py_split_nonempty split: list.splits)


lemma py_split_join:
  "ps \<noteq> [] \<Longrightarrow> \<forall>p\<in>set ps. sep \<notin> set p \<Longrightarrow> py_split sep (py_join [sep] ps) = ps"
proof (induction "[sep]" ps rule: py_join.induct)
  case 1
  then show ?case by simp
next
  case (2 part)
  then show ?case by (simp add: py_split_without_sep)
next
  case (3 part v va)
  then show ?case
    by (simp add: py_split_append_sep py_split_without_sep del: py_split.simps)
qed

lemma py_join_chars: "set (py_join sep ps) \<subseteq> set sep \<union> \<Union> (set ` set ps)"
  by (induction sep ps rule: py_join.induct) auto

lemma clean_name_nonempty: "clean_name s \<Longrightarrow> s \<noteq> []"
  by (auto simp: clean_name_def)

lemma underscore_blocklisted_id:
  "set s \<inter> set blocklist = {} \<Longrightarrow> underscore_blocklisted s = s"
  unfolding underscore_blocklisted_def by (rule map_idI) auto

lemma underscore_blocklisted_free: "set (underscore_blocklisted s) \<inter> set blocklist = {}"
  by (auto simp: underscore_blocklisted_def blocklist_def)

lemma drop_empty_parts_id:
  "[] \<notin> set (py_split CHR ''_'' s) \<Longrightarrow> drop_empty_parts s = s"
proof -
  assume "[] \<notin> set (py_split CHR ''_'' s)"
  then have "filter (\<lambda>part. part \<noteq> []) (py_split CHR ''_'' s) = py_split CHR ''_'' s"
    by (auto simp: filter_id_conv)
  then show ?thesis
    using py_join_split[of "CHR ''_''" s] by (simp add: drop_empty_parts_def)
qed

lemma drop_empty_parts_clean:
  assumes "set s \<inter> set blocklist = {}"
  shows "drop_empty_parts s = [] \<or> clean_name (drop_empty_parts s)"
proof -
  let ?parts = "filter (\<lambda>part. part \<noteq> []) (py_split CHR ''_'' s)"
  show ?thesis
  proof (cases "?parts = []")
    case True
    then show ?thesis by (simp add: drop_empty_parts_def)
  next
    case False
    have no_sep: "\<forall>p\<in>set ?parts. CHR ''_'' \<notin> set p"
      using py_split_no_sep by fastforce
    have split: "py_split CHR ''_'' (drop_empty_parts s) = ?parts"
      unfolding drop_empty_parts_def using False no_sep by (rule py_split_join)
    have "set (drop_empty_parts s) \<subseteq> set ''_'' \<union> \<Union> (set ` set ?parts)"
      unfolding drop_empty_parts_def by (rule py_join_chars)
    moreover have "\<Union> (set ` set ?parts) \<subseteq> set s"
      using py_split_chars by fastforce
    ultimately have "set (drop_empty_parts s) \<subseteq> insert CHR ''_'' (set s)"
      by auto
    moreover have "CHR ''_'' \<notin> set blocklist"
      by (simp add: blocklist_def)
    ultimately have "set (drop_empty_parts s) \<inter> set blocklist = {}"
      using assms by auto
    with split show ?thesis
      by (simp add: clean_name_def)
  qed
qed

lemma str_nat_nonempty: "str_nat n \<noteq> []"
  by (subst str_nat.simps) simp

lemma digit_char_digit: "d < 10 \<Longrightarrow> digit_char d \<in> set ''0123456789''"
proof -
  assume "d < 10"
  then have "d \<in> {0,1,2,3,4,5,6,7,8,9}" by auto
  then show ?thesis
    by (auto simp: digit_char_def)
qed

lemma str_nat_digits: "set (str_nat n) \<subseteq> set ''0123456789''"
proof (induction n rule: str_nat.induct)
  case (1 n)
  show ?case
  proof (cases "n < 10")
    case True
    then show ?thesis
      using digit_char_digit[of n] by (subst str_nat.simps) simp
  next
    case False
    moreover have "digit_char (n mod 10) \<in> set ''0123456789''"
      by (rule digit_char_digit) simp
    ultimately show ?thesis
      using "1.IH" by (subst str_nat.simps) simp
  qed
qed

lemma str_nat_clean:
  "set (str_nat n) \<inter> set blocklist = {}" "CHR ''_'' \<notin> set (str_nat n)"
  using str_nat_digits[of n] by (auto simp: blocklist_def)

lemma clean_name_suffix:
  assumes "clean_name c"
  shows "clean_name (c @ ''_'' @ str_nat k)"
proof -
  have "py_split CHR ''_'' (c @ ''_'' @ str_nat k) = py_split CHR ''_'' c @ [str_nat k]"
    using py_split_append_sep[of "CHR ''_''" c "str_nat k"]
    by (simp add: py_split_without_sep str_nat_clean)
  moreover have "CHR ''_'' \<notin> set blocklist"
    by (simp add: blocklist_def)
  ultimately show ?thesis
    using assms str_nat_clean(1)[of k] str_nat_nonempty[of k]
    by (auto simp: clean_name_def)
qed

lemma clean_name_placeholder: "clean_name (''column_'' @ str_nat i)"
proof -
  have "py_split CHR ''_'' (''column'' @ CHR ''_'' # str_nat i) =
        py_split CHR ''_'' ''column'' @ py_split CHR ''_'' (str_nat i)"
    by (rule py_split_append_sep)
  then have "py_split CHR ''_'' (''column_'' @ str_nat i) = [''column'', str_nat i]"
    by (simp add: py_split_without_sep str_nat_clean)
  moreover have "set ''column_'' \<inter> set blocklist = {}"
    by (simp add: blocklist_def)
  ultimately show ?thesis
    using str_nat_clean(1)[of i] str_nat_nonempty[of i]
    by (auto simp: clean_name_def)
qed


lemma dedup_loop_acc: "dedup_loop seen acc cols = acc @ dedup_loop seen [] cols"
proof (induction cols arbitrary: seen acc)
  case Nil
  show ?case by simp
next
  case (Cons c cols)
  show ?case
    using Cons.IH[of _ "acc @ [_]"] Cons.IH[of _ "[_]"]
    by (simp add: Let_def)
qed

lemma unused_suffix_cong:
  "set seen = set seen' \<Longrightarrow> unused_suffix col seen counter = unused_suffix col seen' counter"
proof (induction col seen counter rule: unused_suffix.induct)
  case (1 col seen counter)
  show ?case
  proof (cases "col @ ''_'' @ str_nat counter \<in> set seen")
    case True
    with 1 show ?thesis
      by (subst unused_suffix.simps, subst (2) unused_suffix.simps) (simp add: Let_def)
  next
    case False
    with 1 show ?thesis
      by (subst unused_suffix.simps, subst (2) unused_suffix.simps) (simp add: Let_def)
  qed
qed

lemma unused_suffix_spec:
  "\<exists>k\<ge>counter. unused_suffix col seen counter = col @ ''_'' @ str_nat k
      \<and> col @ ''_'' @ str_nat k \<notin> set seen
      \<and> (\<forall>j. counter \<le> j \<and> j < k \<longrightarrow> col @ ''_'' @ str_nat j \<in> set seen)"
proof (induction col seen counter rule: unused_suffix.induct)
  case (1 col seen counter)
  show ?case
  proof (cases "col @ ''_'' @ str_nat counter \<in> set seen")
    case True
    from "1.IH"[OF refl True] obtain k where k: "k \<ge> counter + 1"
      "unused_suffix col seen (counter + 1) = col @ ''_'' @ str_nat k"
      "col @ ''_'' @ str_nat k \<notin> set seen"
      "\<forall>j. counter + 1 \<le> j \<and> j < k \<longrightarrow> col @ ''_'' @ str_nat j \<in> set seen"
      by blast
    have "unused_suffix col seen counter = col @ ''_'' @ str_nat k"
      using True k(2) by (subst unused_suffix.simps) (simp add: Let_def)
    moreover have "\<forall>j. counter \<le> j \<and> j < k \<longrightarrow> col @ ''_'' @ str_nat j \<in> set seen"
    proof (intro allI impI)
      fix j assume "counter \<le> j \<and> j < k"
      then consider "j = counter" | "counter + 1 \<le> j \<and> j < k" by linarith
      then show "col @ ''_'' @ str_nat j \<in> set seen"
        using True k(4) by cases auto
    qed
    ultimately show ?thesis
      using k(1,3) by (intro exI[of _ k]) simp
  next
    case False
    then have "unused_suffix col seen counter = col @ ''_'' @ str_nat counter"
      by (subst unused_suffix.simps) (simp add: Let_def)
    with False show ?thesis
      by (intro exI[of _ counter]) auto
  qed
qed

lemma dedup_loop_snoc:
  "set seen = set acc \<Longrightarrow>
   dedup_loop seen acc (cols @ [c]) =
     dedup_loop seen acc cols @ [kept_name (dedup_loop seen acc cols) c]"
proof (induction cols arbitrary: seen acc)
  case Nil
  then show ?case
    using unused_suffix_cong[of seen acc c 1]
    by (simp add: kept_name_def Let_def)
next
  case (Cons x cols)
  show ?case
  proof (cases "x \<in> set seen")
    case True
    have "set (unused_suffix x seen 1 # seen) = set (acc @ [unused_suffix x seen 1])"
      using Cons.prems by auto
    from Cons.IH[OF this] True show ?thesis
      by (simp add: Let_def)
  next
    case False
    have "set (x # seen) = set (acc @ [x])"
      using Cons.prems by auto
    from Cons.IH[OF this] False show ?thesis
      by simp
  qed
qed

lemma remove_duplicate_columns_snoc:
  "remove_duplicate_columns (cols @ [c]) =
     remove_duplicate_columns cols @ [kept_name (remove_duplicate_columns cols) c]"
  by (simp add: remove_duplicate_columns_def dedup_loop_snoc)

lemma remove_duplicate_columns_Nil: "remove_duplicate_columns [] = []"
  by (simp add: remove_duplicate_columns_def)

lemma length_remove_duplicate_columns:
  "length (remove_duplicate_columns cols) = length cols"
  by (induction cols rule: rev_induct)
     (simp_all add: remove_duplicate_columns_Nil remove_duplicate_columns_snoc)

lemma kept_name_fresh: "kept_name earlier col \<notin> set earlier"
  using unused_suffix_spec[of 1 col earlier]
  by (auto simp: kept_name_def)

lemma distinct_remove_duplicate_columns: "distinct (remove_duplicate_columns cols)"
  by (induction cols rule: rev_induct)
     (simp_all add: remove_duplicate_columns_Nil remove_duplicate_columns_snoc kept_name_fresh)

lemma take_remove_duplicate_columns:
  "i \<le> length cols \<Longrightarrow>
   take i (remove_duplicate_columns cols) = remove_duplicate_columns (take i cols)"
proof (induction cols rule: rev_induct)
  case Nil
  then show ?case by (simp add: remove_duplicate_columns_Nil)
next
  case (snoc c cols)
  show ?case
  proof (cases "i \<le> length cols")
    case True
    with snoc.IH show ?thesis
      by (simp add: remove_duplicate_columns_snoc length_remove_duplicate_columns)
  next
    case False
    with snoc.prems have "i = length (cols @ [c])" by simp
    then show ?thesis
      by (simp add: length_remove_duplicate_columns)
  qed
qed

lemma nth_remove_duplicate_columns:
  assumes "i < length cols"
  shows "remove_duplicate_columns cols ! i =
         kept_name (take i (remove_duplicate_columns cols)) (cols ! i)"
proof -
  let ?earlier = "remove_duplicate_columns (take i cols)"
  have len: "length ?earlier = i"
    using assms by (simp add: length_remove_duplicate_columns)
  have "remove_duplicate_columns cols ! i = take (Suc i) (remove_duplicate_columns cols) ! i"
    by simp
  also have "take (Suc i) (remove_duplicate_columns cols) =
        remove_duplicate_columns (take i cols @ [cols ! i])"
    using assms by (simp add: take_remove_duplicate_columns take_Suc_conv_app_nth)
  also have "\<dots> = ?earlier @ [kept_name ?earlier (cols ! i)]"
    by (rule remove_duplicate_columns_snoc)
  also have "\<dots> ! i = kept_name ?earlier (cols ! i)"
    using len by (simp add: nth_append)
  finally show ?thesis
    using assms by (simp add: take_remove_duplicate_columns)
qed







lemma clean_columns_clean: "c \<in> set (clean_columns labels) \<Longrightarrow> clean_name c"
proof -
  assume "c \<in> set (clean_columns labels)"
  then obtain i l where c: "c = spec_sanitize_name i (str_label l)"
    by (auto simp: clean_columns_spec)
  let ?r = "underscore_blocklisted (str_label l)"
  have "drop_empty_parts ?r = [] \<or> clean_name (drop_empty_parts ?r)"
    by (rule drop_empty_parts_clean) (rule underscore_blocklisted_free)
  then show "clean_name c"
    using clean_name_placeholder[of i]
    by (auto simp: c spec_sanitize_name_def Let_def drop_empty_parts_def underscore_blocklisted_def)
qed

lemma kept_name_clean: "clean_name c \<Longrightarrow> clean_name (kept_name earlier c)"
  using unused_suffix_spec[of 1 c earlier] clean_name_suffix[of c]
  by (auto simp: kept_name_def)

lemma remove_duplicate_columns_clean:
  "\<forall>c\<in>set cols. clean_name c \<Longrightarrow> \<forall>c\<in>set (remove_duplicate_columns cols). clean_name c"
  by (induction cols rule: rev_induct)
     (auto simp: remove_duplicate_columns_Nil remove_duplicate_columns_snoc kept_name_clean)

lemma remove_duplicate_columns_distinct_id:
  "distinct cols \<Longrightarrow> remove_duplicate_columns cols = cols"
  by (induction cols rule: rev_induct)
     (auto simp: remove_duplicate_columns_Nil remove_duplicate_columns_snoc kept_name_def)

lemma name_empty_columns_id: "[] \<notin> set cols \<Longrightarrow> name_empty_columns cols = cols"
proof -
  have "map (\<lambda>(i, col). if col = [] then ''column_'' @ str_nat i else col) (enumerate n cols) = cols"
    if "[] \<notin> set cols" for n
    using that by (induction cols arbitrary: n) auto
  then show "[] \<notin> set cols \<Longrightarrow> name_empty_columns cols = cols"
    by (simp add: name_empty_columns_def)
qed

lemma clean_columns_id:
  assumes "\<forall>c\<in>set cols. clean_name c"
  shows "clean_columns (map LStr cols) = cols"
proof -
  have "map (\<lambda>c. drop_empty_parts (replace_specials c)) cols = cols"
  proof (rule map_idI)
    fix c assume "c \<in> set cols"
    with assms have "clean_name c" by blast
    then show "drop_empty_parts (replace_specials c) = c"
      by (simp add: clean_name_def replace_specials_map underscore_blocklisted_id drop_empty_parts_id)
  qed
  moreover have "[] \<notin> set cols"
    using assms clean_name_nonempty by blast
  ultimately show ?thesis
    by (simp add: clean_columns_def name_empty_columns_id o_def)
qed


section \<open>Running the model on the example files\<close>

lemma load_revenue:
  "load_frame example_lib (upload ''q1.csv'' revenue_csv) = Inr revenue_frame"
  by (simp add: load_frame_def seek_def upload_def endswith_def and_then_def read_text_def
      read_def lib_call_def example_lib_def example_read_csv_def)

lemma load_employees:
  "load_frame example_lib (upload ''staff.json'' employees_json) =
     Inr \<lparr>columns = [LStr ''Full Name'', LStr ''Salary''], dtypes = [Object, Int64],
          rows = [[PyStr ''A'', PyInt 50000], [PyStr ''B'', PyInt 60000]]\<rparr>"
  by (simp add: load_frame_def seek_def upload_def endswith_def and_then_def read_text_def
      read_def lib_call_def example_lib_def example_json_loads_def json_to_frame_def
      employees_value_def example_DataFrame_def infer_dtype_def Let_def)


lemmas run_columns =
  sanitize_columns_def remove_duplicate_columns_def clean_columns_def name_empty_columns_def
  drop_empty_parts_def replace_specials_def unused_suffix.simps str_nat.simps digit_char_def
  str_int_def

lemma prepare_revenue:
  "prepare_frame example_lib (upload ''q1.csv'' revenue_csv) None =
     Inr (revenue_frame\<lparr>columns := [LStr ''2023_Q1_Revenue'', LStr ''Name'']\<rparr>)"
  by (simp add: prepare_frame_def load_revenue and_then_def df_empty_def sample_frame_def
      revenue_frame_def run_columns)

lemma prepare_employees:
  "prepare_frame example_lib (upload ''staff.json'' employees_json) None =
     Inr \<lparr>columns = [LStr ''Full_Name'', LStr ''Salary''], dtypes = [Object, Int64],
          rows = [[PyStr ''A'', PyInt 50000], [PyStr ''B'', PyInt 60000]]\<rparr>"
  by (simp add: prepare_frame_def load_employees and_then_def df_empty_def sample_frame_def
      run_columns)

lemma prepare_revenue_sampled:
  "prepare_frame example_lib (upload ''q1.csv'' revenue_csv) (Some 2) =
     Inr \<lparr>columns = [LStr ''2023_Q1_Revenue'', LStr ''Name''], dtypes = [Int64, Object],
          rows = [[PyInt 10, PyStr ''A''], [PyInt 20, PyStr ''B'']]\<rparr>"
proof -
  have "sample example_lib (rows revenue_frame) 2 42 = [[PyInt 10, PyStr ''A''], [PyInt 20, PyStr ''B'']]"
    by (simp add: example_lib_def revenue_frame_def)
  then show ?thesis
    by (simp add: prepare_frame_def load_revenue and_then_def df_empty_def sample_frame_def
        revenue_frame_def run_columns)
qed


section \<open>Lemmas on ingestion and on column types\<close>

lemma lib_call_not_ValueError: "lib_call r \<noteq> Inl (ValueError msg)"
  by (cases r) (simp_all add: lib_call_def)

lemma create_fst_Inl:
  "(fst (create_sqlite_from_uploaded_file lib fs f table_name sample_size) = Inl e) =
   (and_then (prepare_frame lib f sample_size)
      (\<lambda>df. lib_call (to_sql lib df table_name Map.empty)) = Inl e)"
  by (simp add: create_sqlite_from_uploaded_file_def Let_def split: sum.splits)

lemma load_frame_json:
  assumes "endswith (file_name f) ''.json''" and "\<not> endswith (file_name f) ''.csv''"
    and "read_text lib (seek f 0) = Inr content" and "json_loads lib content = Inr json_data"
  shows "load_frame lib f = json_to_frame lib json_data"
  using assms by (simp add: load_frame_def Let_def and_then_def lib_call_def seek_def)

lemma json_to_frame_container:
  "is_array json_data \<or> is_object json_data \<Longrightarrow> \<exists>r. json_to_frame lib json_data = lib_call r"
proof (cases json_data)
  case (PyList items)
  then show ?thesis
    by (auto simp: json_to_frame_def)
next
  case (PyDict items)
  show ?thesis
  proof (cases items)
    case Nil
    with PyDict show ?thesis
      by (auto simp: json_to_frame_def)
  next
    case (Cons kv rest)
    obtain key v where kv: "kv = (key, v)"
      by (cases kv)
    show ?thesis
    proof (cases rest)
      case Nil
      with PyDict Cons kv show ?thesis
        by (cases v) (auto simp: json_to_frame_def)
    next
      case (Cons a more)
      with PyDict \<open>items = kv # rest\<close> kv show ?thesis
        by (auto simp: json_to_frame_def)
    qed
  qed
qed simp_all










section \<open>The properties of the specification\<close>

text \<open>
  C1. Ingestion is reproducible. Two calls on files with the same name and the same
  bytes, with the same table name and sample size, prepare the same frame, the sampled
  rows included, and leave the same database behind (or raise the same error),
  wherever the read pointers of the files stood and whatever scratch paths were
  handed out. The sampler is asked with the fixed seed \<open>42\<close> only: a sampler that agrees
  with the library's at that seed gives the same frame.
\<close>

theorem ingest_reproducible:
  assumes "file_name f = file_name g" and "file_bytes f = file_bytes g"
  shows "prepare_frame lib f sample_size = prepare_frame lib g sample_size
     \<and> (case (create_sqlite_from_uploaded_file lib fs f table_name sample_size,
               create_sqlite_from_uploaded_file lib fs' g table_name sample_size) of
          ((Inr p, s), (Inr p', s')) \<Rightarrow> s p = s' p'
        | ((Inl e, s), (Inl e', s')) \<Rightarrow> e = e'
        | _ \<Rightarrow> False)
     \<and> ((\<forall>rs n. sampler rs n 42 = sample lib rs n 42) \<longrightarrow>
          prepare_frame (lib\<lparr>sample := sampler\<rparr>) f sample_size
            = prepare_frame lib f sample_size)"
proof (intro conjI impI)
  have same_text: "read_text lib (seek f 0) = read_text lib (seek g 0)"
    using assms by (simp add: read_text_def read_def seek_def)
  have load: "load_frame lib f = load_frame lib g"
    using assms same_text by (simp add: load_frame_def Let_def seek_def)
  then show prep: "prepare_frame lib f sample_size = prepare_frame lib g sample_size"
    by (simp add: prepare_frame_def)
  show "case (create_sqlite_from_uploaded_file lib fs f table_name sample_size,
               create_sqlite_from_uploaded_file lib fs' g table_name sample_size) of
          ((Inr p, s), (Inr p', s')) \<Rightarrow> s p = s' p'
        | ((Inl e, s), (Inl e', s')) \<Rightarrow> e = e'
        | _ \<Rightarrow> False"
  proof (cases "and_then (prepare_frame lib g sample_size)
                  (\<lambda>df. lib_call (to_sql lib df table_name Map.empty))")
    case (Inl e)
    with prep show ?thesis
      by (simp add: create_sqlite_from_uploaded_file_def Let_def)
  next
    case (Inr db)
    with prep show ?thesis
      by (simp add: create_sqlite_from_uploaded_file_def Let_def)
  qed
next
  assume seed: "\<forall>rs n. sampler rs n 42 = sample lib rs n 42"
  have "json_to_frame (lib\<lparr>sample := sampler\<rparr>) = json_to_frame lib"
    by (rule ext) (simp add: json_to_frame_def split: pyval.splits list.splits prod.splits)
  then have load: "load_frame (lib\<lparr>sample := sampler\<rparr>) f = load_frame lib f"
    by (simp add: load_frame_def read_text_def Let_def)
  have "sample_frame (lib\<lparr>sample := sampler\<rparr>) sample_size df = sample_frame lib sample_size df"
    for df
    using seed by (simp add: sample_frame_def split: option.splits)
  with load show "prepare_frame (lib\<lparr>sample := sampler\<rparr>) f sample_size
            = prepare_frame lib f sample_size"
    by (simp add: prepare_frame_def Let_def cong: if_cong)
qed

theorem ingest_reproducible_witness:
  "prepare_frame example_lib ((upload ''q1.csv'' revenue_csv)\<lparr>file_pos := 7\<rparr>) (Some 2) =
     Inr \<lparr>columns = [LStr ''2023_Q1_Revenue'', LStr ''Name''], dtypes = [Int64, Object],
          rows = [[PyInt 10, PyStr ''A''], [PyInt 20, PyStr ''B'']]\<rparr>
   \<and> prepare_frame
       (example_lib\<lparr>sample := \<lambda>rs n seed.
          take n (drop (42 mod length rs) rs @ take (42 mod length rs) rs)\<rparr>)
       (upload ''q1.csv'' revenue_csv) (Some 2) =
     Inr \<lparr>columns = [LStr ''2023_Q1_Revenue'', LStr ''Name''], dtypes = [Int64, Object],
          rows = [[PyInt 10, PyStr ''A''], [PyInt 20, PyStr ''B'']]\<rparr>"
proof -
  let ?sampler = "\<lambda>rs n (seed::nat). take n (drop (42 mod length rs) rs @ take (42 mod length rs) rs)"
  have same: "file_name (upload ''q1.csv'' revenue_csv)
          = file_name ((upload ''q1.csv'' revenue_csv)\<lparr>file_pos := 7\<rparr>)"
    "file_bytes (upload ''q1.csv'' revenue_csv)
          = file_bytes ((upload ''q1.csv'' revenue_csv)\<lparr>file_pos := 7\<rparr>)"
    by simp_all
  have seed: "\<forall>rs n. ?sampler rs n 42 = sample example_lib rs n 42"
    by (simp add: example_lib_def)
  from ingest_reproducible[OF same, of example_lib "Some 2" _ _ _ ?sampler] seed
    prepare_revenue_sampled
  show ?thesis
    by simp
qed

text \<open>
  C2. Cleaning the column names does what the specification says: every blocklisted
  character becomes an underscore, the non-empty fragments between underscores are
  joined again with one underscore, and an empty result becomes \<^verbatim>\<open>column_<index>\<close>,
  the index counted from zero. The header \<^verbatim>\<open>2023 Q1 (Revenue)\<close> becomes
  \<^verbatim>\<open>2023_Q1_Revenue\<close>. Whatever the format of the file, the names of the frame that
  is written are the labels of the frame that was read, cleaned in this way and then
  made unique.
\<close>

theorem column_cleaning_matches_spec:
  "clean_columns labels =
     map (\<lambda>(i, col). spec_sanitize_name i (str_label col)) (enumerate 0 labels)
   \<and> sanitize_columns [LStr ''2023 Q1 (Revenue)''] = [''2023_Q1_Revenue'']
   \<and> (prepare_frame lib f sample_size = Inr out \<longrightarrow>
        (\<exists>df. load_frame lib f = Inr df
           \<and> columns out = map LStr (remove_duplicate_columns (clean_columns (columns df)))))"
proof (intro conjI impI)
  show "clean_columns labels =
     map (\<lambda>(i, col). spec_sanitize_name i (str_label col)) (enumerate 0 labels)"
    by (rule clean_columns_spec)
next
  show "sanitize_columns [LStr ''2023 Q1 (Revenue)''] = [''2023_Q1_Revenue'']"
    by (simp add: sanitize_columns_def remove_duplicate_columns_def clean_columns_spec
        spec_sanitize_name_def underscore_blocklisted_def blocklist_def)
next
  assume ok: "prepare_frame lib f sample_size = Inr out"
  then obtain df where df: "load_frame lib f = Inr df"
    by (cases "load_frame lib f") (auto simp: prepare_frame_def and_then_def)
  have "columns (sample_frame lib sample_size df) = columns df"
    by (simp add: sample_frame_def split: option.splits)
  with ok df have "columns out = map LStr (remove_duplicate_columns (clean_columns (columns df)))"
    by (auto simp: prepare_frame_def and_then_def Let_def sanitize_columns_def
        split: if_splits)
  with df show "\<exists>df. load_frame lib f = Inr df
      \<and> columns out = map LStr (remove_duplicate_columns (clean_columns (columns df)))"
    by blast
qed

theorem column_cleaning_matches_spec_witness:
  "(\<exists>df. load_frame example_lib (upload ''q1.csv'' revenue_csv) = Inr df
        \<and> [LStr ''2023_Q1_Revenue'', LStr ''Name''] =
            map LStr (remove_duplicate_columns (clean_columns (columns df))))
   \<and> (\<exists>df. load_frame example_lib (upload ''staff.json'' employees_json) = Inr df
        \<and> [LStr ''Full_Name'', LStr ''Salary''] =
            map LStr (remove_duplicate_columns (clean_columns (columns df))))"
proof -
  from column_cleaning_matches_spec[of "[]" example_lib "upload ''q1.csv'' revenue_csv" None
      "revenue_frame\<lparr>columns := [LStr ''2023_Q1_Revenue'', LStr ''Name'']\<rparr>"]
    prepare_revenue
  have csv: "\<exists>df. load_frame example_lib (upload ''q1.csv'' revenue_csv) = Inr df
        \<and> [LStr ''2023_Q1_Revenue'', LStr ''Name''] =
            map LStr (remove_duplicate_columns (clean_columns (columns df)))"
    by simp
  from column_cleaning_matches_spec[of "[]" example_lib "upload ''staff.json'' employees_json"
      None "\<lparr>columns = [LStr ''Full_Name'', LStr ''Salary''], dtypes = [Object, Int64],
          rows = [[PyStr ''A'', PyInt 50000], [PyStr ''B'', PyInt 60000]]\<rparr>"]
    prepare_employees
  have json: "\<exists>df. load_frame example_lib (upload ''staff.json'' employees_json) = Inr df
        \<and> [LStr ''Full_Name'', LStr ''Salary''] =
            map LStr (remove_duplicate_columns (clean_columns (columns df)))"
    by simp
  from csv json show ?thesis
    by blast
qed

text \<open>
  C3, as amended. The sanitized names are pairwise distinct and as many as the columns.
  Scanning in column order, a name that no earlier output name equals is kept as it is;
  a name that an earlier output name equals (every later duplicate is one, and so is a
  first occurrence that meets a suffixed name made before it) gets the suffix
  \<^verbatim>\<open>_k\<close> with the smallest \<open>k \<ge> 1\<close> for which the suffixed name is not an earlier output
  name.
\<close>

theorem duplicates_get_first_free_suffix:
  "let names = clean_columns labels; out = sanitize_columns labels
   in distinct out \<and> length out = length names
      \<and> (\<forall>i < length names.
            (names ! i \<in> set (take i names) \<longrightarrow> names ! i \<in> set (take i out))
          \<and> (names ! i \<notin> set (take i out) \<longrightarrow> out ! i = names ! i)
          \<and> (names ! i \<in> set (take i out) \<longrightarrow>
               (\<exists>k\<ge>1. out ! i = names ! i @ ''_'' @ str_nat k
                  \<and> out ! i \<notin> set (take i out)
                  \<and> (\<forall>j. 1 \<le> j \<and> j < k \<longrightarrow> names ! i @ ''_'' @ str_nat j \<in> set (take i out)))))"
proof -
  define names where "names = clean_columns labels"
  define out where "out = remove_duplicate_columns names"
  have len: "length out = length names"
    by (simp add: out_def length_remove_duplicate_columns)
  have dist: "distinct out"
    by (simp add: out_def distinct_remove_duplicate_columns)
  have nth: "out ! i = kept_name (take i out) (names ! i)" if "i < length names" for i
    using that by (simp add: out_def nth_remove_duplicate_columns)
  have keep: "out ! i = names ! i" if "i < length names" "names ! i \<notin> set (take i out)" for i
    using nth[OF that(1)] that(2) by (simp add: kept_name_def)
  have suffix: "\<exists>k\<ge>1. out ! i = names ! i @ ''_'' @ str_nat k
        \<and> out ! i \<notin> set (take i out)
        \<and> (\<forall>j. 1 \<le> j \<and> j < k \<longrightarrow> names ! i @ ''_'' @ str_nat j \<in> set (take i out))"
    if "i < length names" "names ! i \<in> set (take i out)" for i
  proof -
    from unused_suffix_spec[of 1 "names ! i" "take i out"]
    obtain k where k: "k \<ge> 1"
      "unused_suffix (names ! i) (take i out) 1 = names ! i @ ''_'' @ str_nat k"
      "names ! i @ ''_'' @ str_nat k \<notin> set (take i out)"
      "\<forall>j. 1 \<le> j \<and> j < k \<longrightarrow> names ! i @ ''_'' @ str_nat j \<in> set (take i out)"
      by blast
    from nth[OF that(1)] that(2) k(2) have "out ! i = names ! i @ ''_'' @ str_nat k"
      by (simp add: kept_name_def)
    with k(1,3,4) show ?thesis
      by metis
  qed
  have later: "names ! i \<in> set (take i out)"
    if i: "i < length names" and dup: "names ! i \<in> set (take i names)" for i
  proof -
    from dup obtain j where j: "j < i" "names ! j = names ! i"
      using i by (auto simp: in_set_conv_nth)
    then have jl: "j < length names"
      using i by simp
    have "names ! j \<in> set (take (Suc j) out)"
    proof (cases "names ! j \<in> set (take j out)")
      case True
      then show ?thesis
        using set_take_subset_set_take[of j "Suc j" out] by auto
    next
      case False
      from keep[OF jl False] have "out ! j = names ! j" .
      then show ?thesis
        using jl len by (metis in_set_conv_nth length_take lessI min_less_iff_conj nth_take)
    qed
    moreover have "set (take (Suc j) out) \<subseteq> set (take i out)"
      using j(1) by (intro set_take_subset_set_take) simp
    ultimately show ?thesis
      using j(2) by auto
  qed
  show ?thesis
    unfolding Let_def sanitize_columns_def names_def[symmetric] out_def[symmetric]
    using len dist keep suffix later by blast
qed

theorem duplicates_get_first_free_suffix_witness:
  "clean_columns [LStr ''a'', LStr ''a!'', LStr ''a 1'', LStr ''a?''] = [''a'', ''a'', ''a_1'', ''a'']
   \<and> sanitize_columns [LStr ''a'', LStr ''a!'', LStr ''a 1'', LStr ''a?'']
       = [''a'', ''a_1'', ''a_1_1'', ''a_2'']
   \<and> (\<exists>k\<ge>1. sanitize_columns [LStr ''a'', LStr ''a!'', LStr ''a 1'', LStr ''a?''] ! 3
              = ''a'' @ ''_'' @ str_nat k
          \<and> (\<forall>j. 1 \<le> j \<and> j < k \<longrightarrow> ''a'' @ ''_'' @ str_nat j \<in> set [''a'', ''a_1'', ''a_1_1'']))"
proof -
  let ?labels = "[LStr ''a'', LStr ''a!'', LStr ''a 1'', LStr ''a?'']"
  have names: "clean_columns ?labels = [''a'', ''a'', ''a_1'', ''a'']"
    by (simp add: run_columns)
  have out: "sanitize_columns ?labels = [''a'', ''a_1'', ''a_1_1'', ''a_2'']"
    by (simp add: run_columns)
  have three: "(3::nat) < length (clean_columns ?labels)"
    by (simp add: names)
  have dup: "clean_columns ?labels ! 3 \<in> set (take 3 (sanitize_columns ?labels))"
    by (simp add: names out numeral_3_eq_3)
  from duplicates_get_first_free_suffix[of ?labels] three dup
  have "\<exists>k\<ge>1. sanitize_columns ?labels ! 3 = clean_columns ?labels ! 3 @ ''_'' @ str_nat k
        \<and> sanitize_columns ?labels ! 3 \<notin> set (take 3 (sanitize_columns ?labels))
        \<and> (\<forall>j. 1 \<le> j \<and> j < k \<longrightarrow>
              clean_columns ?labels ! 3 @ ''_'' @ str_nat j \<in> set (take 3 (sanitize_columns ?labels)))"
    unfolding Let_def by blast
  then have "\<exists>k\<ge>1. sanitize_columns ?labels ! 3 = ''a'' @ ''_'' @ str_nat k
        \<and> (\<forall>j. 1 \<le> j \<and> j < k \<longrightarrow> ''a'' @ ''_'' @ str_nat j \<in> set [''a'', ''a_1'', ''a_1_1''])"
    by (simp add: names out numeral_3_eq_3)
  with names out show ?thesis
    by blast
qed

text \<open>
  C3 as the specification words it lets every first occurrence keep its name. The
  headers \<^verbatim>\<open>a, a!, a_1\<close> are cleaned to \<^verbatim>\<open>a, a, a_1\<close>; the second column becomes
  \<^verbatim>\<open>a_1\<close>, so the third, a first occurrence, cannot keep \<^verbatim>\<open>a_1\<close> and becomes
  \<^verbatim>\<open>a_1_1\<close>.
\<close>

theorem first_occurrence_suffixed_counterexample:
  "\<not> (\<forall>labels. \<forall>i < length (clean_columns labels).
        clean_columns labels ! i \<notin> set (take i (clean_columns labels)) \<longrightarrow>
        sanitize_columns labels ! i = clean_columns labels ! i)"
proof
  assume claim: "\<forall>labels. \<forall>i < length (clean_columns labels).
        clean_columns labels ! i \<notin> set (take i (clean_columns labels)) \<longrightarrow>
        sanitize_columns labels ! i = clean_columns labels ! i"
  let ?labels = "[LStr ''a'', LStr ''a!'', LStr ''a_1'']"
  have names: "clean_columns ?labels = [''a'', ''a'', ''a_1'']"
    by (simp add: run_columns)
  have out: "sanitize_columns ?labels = [''a'', ''a_1'', ''a_1_1'']"
    by (simp add: run_columns)
  from claim have "\<forall>i < length (clean_columns ?labels).
        clean_columns ?labels ! i \<notin> set (take i (clean_columns ?labels)) \<longrightarrow>
        sanitize_columns ?labels ! i = clean_columns ?labels ! i"
    by (rule spec)
  then have "clean_columns ?labels ! 2 \<notin> set (take 2 (clean_columns ?labels)) \<longrightarrow>
        sanitize_columns ?labels ! 2 = clean_columns ?labels ! 2"
    using names by simp
  then show False
    unfolding names out by simp
qed

text \<open>
  C4. Sanitization is idempotent: sanitizing the names that sanitization produced gives
  the same names again.
\<close>

theorem sanitize_columns_idempotent:
  "sanitize_columns (map LStr (sanitize_columns labels)) = sanitize_columns labels"
proof -
  have "\<forall>c\<in>set (sanitize_columns labels). clean_name c"
    unfolding sanitize_columns_def
    by (rule remove_duplicate_columns_clean) (simp add: clean_columns_clean)
  then have "clean_columns (map LStr (sanitize_columns labels)) = sanitize_columns labels"
    by (rule clean_columns_id)
  moreover have "distinct (sanitize_columns labels)"
    by (simp add: sanitize_columns_def distinct_remove_duplicate_columns)
  ultimately show ?thesis
    by (simp add: sanitize_columns_def[of "map LStr _"] remove_duplicate_columns_distinct_id)
qed

text \<open>
  C5. A file that loads to a non-empty frame is ingested: a frame is prepared for
  writing, and it has \<open>min(rows, sample_size or rows)\<close> rows, \<open>rows\<close> being the row
  count of the frame that was loaded; with no sample size, or one that is at least the
  row count, its rows are those of the loaded frame in their order. When the writer
  accepts that frame, the function returns the scratch path, and the database there is
  what the writer made of it. The library's sampler is taken to return the number of
  rows it is asked for, in the one call the code makes.
\<close>

theorem ingest_row_count:
  assumes load: "load_frame lib f = Inr df"
    and nonempty: "\<not> df_empty df"
    and sampler: "\<And>n. sample_size = Some n \<Longrightarrow> n \<noteq> 0 \<Longrightarrow> n < length (rows df) \<Longrightarrow>
                    length (sample lib (rows df) n 42) = n"
  shows "\<exists>out. prepare_frame lib f sample_size = Inr out
     \<and> length (rows out)
         = min (length (rows df)) (sample_size_or sample_size (length (rows df)))
     \<and> ((case sample_size of None \<Rightarrow> True | Some n \<Rightarrow> length (rows df) \<le> n) \<longrightarrow>
          rows out = rows df)
     \<and> (\<forall>db. to_sql lib out table_name Map.empty = Inr db \<longrightarrow>
          create_sqlite_from_uploaded_file lib fs f table_name sample_size
            = (Inr (mktemp lib fs), fs(mktemp lib fs \<mapsto> db)))"
proof -
  define sampled where "sampled = sample_frame lib sample_size df"
  define out where "out = sampled\<lparr>columns := map LStr (sanitize_columns (columns sampled))\<rparr>"
  have prep: "prepare_frame lib f sample_size = Inr out"
    using load nonempty
    by (simp add: prepare_frame_def and_then_def Let_def out_def sampled_def)
  have out_rows: "rows out = rows (sample_frame lib sample_size df)"
    by (simp add: out_def sampled_def)
  have count: "length (rows out)
         = min (length (rows df)) (sample_size_or sample_size (length (rows df)))"
  proof (cases sample_size)
    case None
    with out_rows show ?thesis
      by (simp add: sample_frame_def sample_size_or_def)
  next
    case (Some n)
    show ?thesis
    proof (cases "n \<noteq> 0 \<and> n < length (rows df)")
      case True
      with Some have "length (sample lib (rows df) n 42) = n"
        by (intro sampler) simp_all
      with out_rows Some True show ?thesis
        by (simp add: sample_frame_def sample_size_or_def)
    next
      case False
      with out_rows Some show ?thesis
        by (auto simp: sample_frame_def sample_size_or_def)
    qed
  qed
  have order: "(case sample_size of None \<Rightarrow> True | Some n \<Rightarrow> length (rows df) \<le> n) \<longrightarrow>
          rows out = rows df"
    using out_rows by (auto simp: sample_frame_def split: option.splits)
  have written: "\<forall>db. to_sql lib out table_name Map.empty = Inr db \<longrightarrow>
          create_sqlite_from_uploaded_file lib fs f table_name sample_size
            = (Inr (mktemp lib fs), fs(mktemp lib fs \<mapsto> db))"
    using prep
    by (simp add: create_sqlite_from_uploaded_file_def Let_def and_then_def lib_call_def)
  from prep count order written show ?thesis
    by blast
qed

theorem ingest_row_count_witness:
  "(\<exists>out. prepare_frame example_lib (upload ''q1.csv'' revenue_csv) (Some 2) = Inr out
      \<and> length (rows out) = 2
      \<and> create_sqlite_from_uploaded_file example_lib Map.empty (upload ''q1.csv'' revenue_csv)
           ''data'' (Some 2)
         = (Inr ''/tmp/tmpk3v9.db'', [''/tmp/tmpk3v9.db'' \<mapsto> [''data'' \<mapsto> out]]))
   \<and> (\<exists>out. prepare_frame example_lib (upload ''q1.csv'' revenue_csv) (Some 5) = Inr out
      \<and> rows out = [[PyInt 10, PyStr ''A''], [PyInt 20, PyStr ''B''], [PyInt 30, PyStr ''C'']])"
proof -
  have nonempty: "\<not> df_empty revenue_frame"
    by (simp add: df_empty_def revenue_frame_def)
  have sampler: "length (sample example_lib (rows revenue_frame) n 42) = n"
    if "n < length (rows revenue_frame)" for n
    using that by (simp add: example_lib_def)
  have lib: "mktemp example_lib Map.empty = ''/tmp/tmpk3v9.db''"
    "\<And>df db. to_sql example_lib df ''data'' db = Inr (db(''data'' \<mapsto> df))"
    by (simp_all add: example_lib_def)
  from ingest_row_count[OF load_revenue nonempty sampler, of "Some 2" "''data''" Map.empty]
  obtain out where out: "prepare_frame example_lib (upload ''q1.csv'' revenue_csv) (Some 2) = Inr out"
    "length (rows out)
       = min (length (rows revenue_frame)) (sample_size_or (Some 2) (length (rows revenue_frame)))"
    "\<forall>db. to_sql example_lib out ''data'' Map.empty = Inr db \<longrightarrow>
          create_sqlite_from_uploaded_file example_lib Map.empty (upload ''q1.csv'' revenue_csv)
            ''data'' (Some 2)
            = (Inr (mktemp example_lib Map.empty), [mktemp example_lib Map.empty \<mapsto> db])"
    by auto
  then have first: "\<exists>out. prepare_frame example_lib (upload ''q1.csv'' revenue_csv) (Some 2) = Inr out
      \<and> length (rows out) = 2
      \<and> create_sqlite_from_uploaded_file example_lib Map.empty (upload ''q1.csv'' revenue_csv)
           ''data'' (Some 2)
         = (Inr ''/tmp/tmpk3v9.db'', [''/tmp/tmpk3v9.db'' \<mapsto> [''data'' \<mapsto> out]])"
    using lib by (auto simp: sample_size_or_def revenue_frame_def)
  from ingest_row_count[OF load_revenue nonempty sampler, of "Some 5" "''data''" Map.empty]
  have second: "\<exists>out. prepare_frame example_lib (upload ''q1.csv'' revenue_csv) (Some 5) = Inr out
      \<and> rows out = [[PyInt 10, PyStr ''A''], [PyInt 20, PyStr ''B''], [PyInt 30, PyStr ''C'']]"
    by (auto simp: revenue_frame_def)
  from first second show ?thesis
    by blast
qed

text \<open>
  C6. A source that loads with zero rows is refused with the error
  \<^verbatim>\<open>The uploaded file contains no data\<close> (the specification's EmptySource). The scratch
  database file is gone afterwards, so no table is produced, and the check comes before
  sampling: the sampler has no part in the outcome.
\<close>

theorem empty_source_rejected:
  assumes "load_frame lib f = Inr df" and "rows df = []"
  shows "fst (create_sqlite_from_uploaded_file lib fs f table_name sample_size)
           = Inl (ValueError ''The uploaded file contains no data'')
     \<and> snd (create_sqlite_from_uploaded_file lib fs f table_name sample_size) (mktemp lib fs)
           = None
     \<and> create_sqlite_from_uploaded_file (lib\<lparr>sample := sampler\<rparr>) fs f table_name sample_size
           = create_sqlite_from_uploaded_file lib fs f table_name sample_size"
proof -
  have "json_to_frame (lib\<lparr>sample := sampler\<rparr>) = json_to_frame lib"
    by (rule ext) (simp add: json_to_frame_def split: pyval.splits list.splits prod.splits)
  then have "load_frame (lib\<lparr>sample := sampler\<rparr>) f = load_frame lib f"
    by (simp add: load_frame_def read_text_def Let_def)
  with assms have "prepare_frame (lib\<lparr>sample := sampler\<rparr>) f sample_size
        = Inl (ValueError ''The uploaded file contains no data'')"
    and "prepare_frame lib f sample_size = Inl (ValueError ''The uploaded file contains no data'')"
    by (simp_all add: prepare_frame_def and_then_def df_empty_def)
  then show ?thesis
    by (simp add: create_sqlite_from_uploaded_file_def and_then_def Let_def)
qed

theorem empty_source_rejected_witness:
  "fst (create_sqlite_from_uploaded_file example_lib Map.empty (upload ''none.json'' ''[]'')
         ''data'' (Some 2))
     = Inl (ValueError ''The uploaded file contains no data'')
   \<and> snd (create_sqlite_from_uploaded_file example_lib Map.empty (upload ''none.json'' ''[]'')
         ''data'' (Some 2)) ''/tmp/tmpk3v9.db''
     = None"
proof -
  have load: "load_frame example_lib (upload ''none.json'' ''[]'')
        = Inr \<lparr>columns = [], dtypes = [], rows = []\<rparr>"
    by (simp add: load_frame_def seek_def upload_def endswith_def and_then_def read_text_def
      read_def lib_call_def example_lib_def example_json_loads_def json_to_frame_def
      example_DataFrame_def employees_json_def)
  have empty: "rows \<lparr>columns = [], dtypes = [], rows = []\<rparr> = []"
    by simp
  have tmp: "mktemp example_lib Map.empty = ''/tmp/tmpk3v9.db''"
    by (simp add: example_lib_def)
  from empty_source_rejected[OF load empty, of Map.empty "''data''" "Some 2"] tmp
  show ?thesis
    by simp
qed

text \<open>
  C7. For a file whose name ends in neither \<^verbatim>\<open>.csv\<close> nor \<^verbatim>\<open>.json\<close> the
  specification asks \<open>get_file_info\<close> for an unsupported-format error. The function
  has no branch for this case and returns \<open>None\<close>; the ingestion function raises
  \<^verbatim>\<open>Unsupported file type\<close> on the same file.
\<close>

theorem get_file_info_unsupported_extension:
  "get_file_info lib (upload ''notes.txt'' ''a,b'') = None
   \<and> fst (create_sqlite_from_uploaded_file lib fs (upload ''notes.txt'' ''a,b'') table_name
          sample_size) = Inl (ValueError ''Unsupported file type: notes.txt'')"
  by (simp add: get_file_info_def create_sqlite_from_uploaded_file_def prepare_frame_def
      load_frame_def seek_def upload_def endswith_def and_then_def Let_def)

text \<open>
  C8, as amended. For a JSON file that decodes and parses, ingestion fails with
  \<^verbatim>\<open>Unsupported JSON structure\<close> exactly when the parsed value is neither an array nor
  an object. Every array goes to the frame constructor as it is, whatever its elements;
  an object with one key whose value is an array gives that array; an object with one
  key whose value is not an array gives that value as the only row; any other object
  is itself the only row.
\<close>

theorem unsupported_json_iff_neither_array_nor_object:
  assumes "endswith (file_name f) ''.json''" and "\<not> endswith (file_name f) ''.csv''"
    and "read_text lib (seek f 0) = Inr content" and "json_loads lib content = Inr json_data"
  shows "(fst (create_sqlite_from_uploaded_file lib fs f table_name sample_size)
            = Inl (ValueError ''Unsupported JSON structure''))
         = (\<not> is_array json_data \<and> \<not> is_object json_data)
     \<and> (\<forall>items. json_data = PyList items \<longrightarrow>
           load_frame lib f = lib_call (DataFrame lib items))
     \<and> (\<forall>key vs. json_data = PyDict [(key, PyList vs)] \<longrightarrow>
           load_frame lib f = lib_call (DataFrame lib vs))
     \<and> (\<forall>key v. json_data = PyDict [(key, v)] \<and> \<not> is_array v \<longrightarrow>
           load_frame lib f = lib_call (DataFrame lib [v]))
     \<and> (\<forall>items. json_data = PyDict items \<and> length items \<noteq> 1 \<longrightarrow>
           load_frame lib f = lib_call (DataFrame lib [json_data]))"
proof -
  note load = load_frame_json[OF assms]
  let ?bad = "Inl (ValueError ''Unsupported JSON structure'')"
  let ?run = "and_then (prepare_frame lib f sample_size)
      (\<lambda>df. lib_call (to_sql lib df table_name Map.empty))"
  have scalar: "?run = ?bad" if "\<not> is_array json_data" "\<not> is_object json_data"
    using that load
    by (cases json_data) (simp_all add: prepare_frame_def and_then_def json_to_frame_def)
  have container: "?run \<noteq> ?bad" if "is_array json_data \<or> is_object json_data"
  proof -
    from that have "\<exists>r. json_to_frame lib json_data = lib_call r"
      by (rule json_to_frame_container)
    then obtain r where r: "json_to_frame lib json_data = lib_call r"
      by blast
    show ?thesis
    proof (cases r)
      case (Inl msg)
      with r load show ?thesis
        by (simp add: prepare_frame_def and_then_def lib_call_def)
    next
      case (Inr df)
      with r load show ?thesis
        using lib_call_not_ValueError[of "to_sql lib _ table_name Map.empty"]
        by (simp add: prepare_frame_def and_then_def lib_call_def Let_def)
    qed
  qed
  have iff: "(fst (create_sqlite_from_uploaded_file lib fs f table_name sample_size) = ?bad)
         = (\<not> is_array json_data \<and> \<not> is_object json_data)"
    unfolding create_fst_Inl using scalar container by blast
  have frames:
    "\<forall>items. json_data = PyList items \<longrightarrow> load_frame lib f = lib_call (DataFrame lib items)"
    "\<forall>key vs. json_data = PyDict [(key, PyList vs)] \<longrightarrow>
           load_frame lib f = lib_call (DataFrame lib vs)"
    "\<forall>key v. json_data = PyDict [(key, v)] \<and> \<not> is_array v \<longrightarrow>
           load_frame lib f = lib_call (DataFrame lib [v])"
    "\<forall>items. json_data = PyDict items \<and> length items \<noteq> 1 \<longrightarrow>
           load_frame lib f = lib_call (DataFrame lib [json_data])"
    unfolding load
    by (auto simp: json_to_frame_def split: list.splits prod.splits pyval.splits)
  from iff frames show ?thesis
    by blast
qed

theorem unsupported_json_iff_neither_array_nor_object_witness:
  "fst (create_sqlite_from_uploaded_file example_lib Map.empty (upload ''n.json'' ''5'') ''data''
         None) = Inl (ValueError ''Unsupported JSON structure'')"
proof -
  have json: "endswith (file_name (upload ''n.json'' ''5'')) ''.json''"
    and not_csv: "\<not> endswith (file_name (upload ''n.json'' ''5'')) ''.csv''"
    by (simp_all add: upload_def endswith_def)
  have content: "read_text example_lib (seek (upload ''n.json'' ''5'') 0) = Inr ''5''"
    by (simp add: read_text_def read_def seek_def upload_def lib_call_def example_lib_def)
  have parsed: "json_loads example_lib ''5'' = Inr (PyInt 5)"
    by (simp add: example_lib_def example_json_loads_def employees_json_def)
  from unsupported_json_iff_neither_array_nor_object[OF json not_csv content parsed,
      of Map.empty "''data''" None]
  show ?thesis
    by simp
qed

text \<open>
  C8 as the specification words it refuses an array whose elements are not objects. The
  document \<^verbatim>\<open>[1]\<close> is not one of the three shapes, and its ingestion succeeds with a
  table of one row and one column named \<^verbatim>\<open>0\<close>.
\<close>

theorem array_of_numbers_accepted_counterexample:
  "\<not> supported_shape (PyList [PyInt 1])
   \<and> json_loads example_lib ''[1]'' = Inr (PyList [PyInt 1])
   \<and> create_sqlite_from_uploaded_file example_lib Map.empty (upload ''numbers.json'' ''[1]'')
         ''data'' None
       = (Inr ''/tmp/tmpk3v9.db'',
          [''/tmp/tmpk3v9.db'' \<mapsto>
             [''data'' \<mapsto> \<lparr>columns = [LStr ''0''], dtypes = [Int64], rows = [[PyInt 1]]\<rparr>]])"
proof (intro conjI)
  show "\<not> supported_shape (PyList [PyInt 1])"
    by (simp add: supported_shape_def)
  show parsed: "json_loads example_lib ''[1]'' = Inr (PyList [PyInt 1])"
    by (simp add: example_lib_def example_json_loads_def employees_json_def)
  have content: "read_text example_lib (seek (upload ''numbers.json'' ''[1]'') 0) = Inr ''[1]''"
    by (simp add: read_text_def read_def seek_def upload_def lib_call_def example_lib_def)
  have frame: "DataFrame example_lib [PyInt 1]
      = Inr \<lparr>columns = [LInt 0], dtypes = [Int64], rows = [[PyInt 1]]\<rparr>"
    by (simp add: example_lib_def example_DataFrame_def infer_dtype_def)
  have "load_frame example_lib (upload ''numbers.json'' ''[1]'')
      = Inr \<lparr>columns = [LInt 0], dtypes = [Int64], rows = [[PyInt 1]]\<rparr>"
    using content parsed frame
    by (simp add: load_frame_def Let_def and_then_def lib_call_def json_to_frame_def
        endswith_def upload_def seek_def)
  then have "prepare_frame example_lib (upload ''numbers.json'' ''[1]'') None
      = Inr \<lparr>columns = [LStr ''0''], dtypes = [Int64], rows = [[PyInt 1]]\<rparr>"
    by (simp add: prepare_frame_def and_then_def df_empty_def sample_frame_def run_columns)
  moreover have "mktemp example_lib Map.empty = ''/tmp/tmpk3v9.db''"
    and "\<And>df db. to_sql example_lib df ''data'' db = Inr (db(''data'' \<mapsto> df))"
    by (simp_all add: example_lib_def)
  ultimately show "create_sqlite_from_uploaded_file example_lib Map.empty
        (upload ''numbers.json'' ''[1]'') ''data'' None
       = (Inr ''/tmp/tmpk3v9.db'',
          [''/tmp/tmpk3v9.db'' \<mapsto>
             [''data'' \<mapsto> \<lparr>columns = [LStr ''0''], dtypes = [Int64], rows = [[PyInt 1]]\<rparr>]])"
    by (simp add: create_sqlite_from_uploaded_file_def Let_def and_then_def lib_call_def)
qed




text \<open>
  C10. In the text of an INSERT value the branch for booleans is never taken: no value
  reaches it, since every boolean already passes the test for \<^verbatim>\<open>int\<close> and
  \<^verbatim>\<open>float\<close> before it. A boolean is therefore written as \<^verbatim>\<open>True\<close> or \<^verbatim>\<open>False\<close>,
  unquoted, and never as \<^verbatim>\<open>1\<close> or \<^verbatim>\<open>0\<close>.
\<close>

theorem bool_branch_unreachable:
  "value_branch isna_list v \<noteq> Inr BoolBranch
   \<and> record_value isna_list repr (PyBool b) = Inr (if b then ''True'' else ''False'')"
proof
  have "isinstance_bool v \<Longrightarrow> isinstance_int_float v"
    by (cases v) simp_all
  then show "value_branch isna_list v \<noteq> Inr BoolBranch"
    by (cases "pd_isna isna_list v")
       (auto simp: value_branch_def and_then_def lib_call_def)
next
  show "record_value isna_list repr (PyBool b) = Inr (if b then ''True'' else ''False'')"
    by (simp add: record_value_def value_branch_def and_then_def lib_call_def)
qed

end
